theory Spec2Isabelle
  imports Main
begin

section \<open>Strings and numbers of the scripts\<close>

text \<open>
  Texts are lists of 8-bit characters, read as the code units U+0000 to U+00FF.
  Numbers are unbounded integers; \<open>None\<close> stands for NaN.  \<open>toNumber\<close> covers the
  empty string and strings of decimal digits, which is what time strings are made of;
  every other string is taken as NaN (signs, fractions, exponents and surrounding blanks,
  which the script's \<open>Number\<close> would also read, are outside the model).
\<close>

definition isDigit :: "char \<Rightarrow> bool" where
  "isDigit c = (48 \<le> (of_char c :: nat) \<and> (of_char c :: nat) \<le> 57)"

definition digitVal :: "char \<Rightarrow> nat" where
  "digitVal c = (of_char c :: nat) - 48"

definition digitChar :: "nat \<Rightarrow> char" where
  "digitChar d = char_of (48 + d)"

text \<open>White space as \<open>trim\<close> and the pattern class \<open>\s\<close> see it, below U+0100.\<close>

definition isSpace :: "char \<Rightarrow> bool" where
  "isSpace c = ((of_char c :: nat) \<in> {9, 10, 11, 12, 13, 32, 160})"

definition trim :: "string \<Rightarrow> string" where
  "trim s = rev (dropWhile isSpace (rev (dropWhile isSpace s)))"

text \<open>
  \<open>toLowerCase\<close> on the code units below U+0100; \<open>toUpperCase\<close> on the ASCII letters
  only, which is where the scripts apply it (the matched AM or PM).
\<close>

definition toLowerChar :: "char \<Rightarrow> char" where
  "toLowerChar c = (let n = (of_char c :: nat) in
     if (65 \<le> n \<and> n \<le> 90) \<or> (192 \<le> n \<and> n \<le> 222 \<and> n \<noteq> 215)
     then char_of (n + 32) else c)"

definition toLowerCase :: "string \<Rightarrow> string" where
  "toLowerCase s = map toLowerChar s"

definition toUpperChar :: "char \<Rightarrow> char" where
  "toUpperChar c = (let n = (of_char c :: nat) in
     if 97 \<le> n \<and> n \<le> 122 then char_of (n - 32) else c)"

definition toUpperCase :: "string \<Rightarrow> string" where
  "toUpperCase s = map toUpperChar s"

text \<open>\<open>parseInt\<close> on a string of decimal digits, most significant digit first.\<close>

definition parseDigits :: "string \<Rightarrow> nat" where
  "parseDigits s = foldl (\<lambda>acc c. 10 * acc + digitVal c) 0 s"

definition toNumber :: "string \<Rightarrow> int option" where
  "toNumber s = (if list_all isDigit s then Some (int (parseDigits s)) else None)"

text \<open>\<open>String(n)\<close> for a natural number: its decimal digits.\<close>

fun toString :: "nat \<Rightarrow> string" where
  "toString n = (if n < 10 then [digitChar n] else toString (n div 10) @ [digitChar (n mod 10)])"

declare toString.simps [simp del]

definition padStart :: "nat \<Rightarrow> char \<Rightarrow> string \<Rightarrow> string" where
  "padStart n c s = replicate (n - length s) c @ s"

text \<open>\<open>s.split(sep)\<close> for a one-character separator: always at least one piece.\<close>

fun splitChar :: "char \<Rightarrow> string \<Rightarrow> string list" where
  "splitChar sep [] = [[]]"
| "splitChar sep (c # cs) =
     (if c = sep then [] # splitChar sep cs
      else (case splitChar sep cs of
              [] \<Rightarrow> [[c]]
            | p # ps \<Rightarrow> (c # p) # ps))"

section \<open>Time model\<close>

definition DAY_START_HOUR :: int where
  "DAY_START_HOUR = 9"

text \<open>
  The destructuring \<open>[h, m] = str.split(':').map(Number)\<close>: the first two pieces are
  read as numbers; a missing piece is \<open>undefined\<close> and counts as NaN in the arithmetic
  that follows.
\<close>

definition twoNumbers :: "string \<Rightarrow> int option \<times> int option" where
  "twoNumbers str =
     (case map toNumber (splitChar (CHR '':'') str) of
        [] \<Rightarrow> (None, None)
      | [h] \<Rightarrow> (h, None)
      | h # m # _ \<Rightarrow> (h, m))"

text \<open>Comparison and addition of numbers that may be NaN: a comparison with NaN is false.\<close>

definition numLess :: "int option \<Rightarrow> int option \<Rightarrow> bool" where
  "numLess a b = (case a of None \<Rightarrow> False | Some x \<Rightarrow> (case b of None \<Rightarrow> False | Some y \<Rightarrow> x < y))"

definition numAdd :: "int option \<Rightarrow> int option \<Rightarrow> int option" where
  "numAdd a b = (case a of None \<Rightarrow> None | Some x \<Rightarrow> (case b of None \<Rightarrow> None | Some y \<Rightarrow> Some (x + y)))"

definition minutesFromDayStart :: "string \<Rightarrow> int option" where
  "minutesFromDayStart timeStr =
     (let (h, m) = twoNumbers timeStr;
          effectiveH = (if numLess h (Some DAY_START_HOUR) then numAdd h (Some 24) else h)
      in numAdd (map_option (\<lambda>e. (e - DAY_START_HOUR) * 60) effectiveH) m)"

text \<open>The template \<open>HH:MM\<close> with both numbers padded to two digits.\<close>

definition formatHHMM :: "nat \<Rightarrow> nat \<Rightarrow> string" where
  "formatHHMM h m =
     padStart 2 (CHR ''0'') (toString h) @ CHR '':'' # padStart 2 (CHR ''0'') (toString m)"

section \<open>Shows\<close>

text \<open>
  A show object with the fields the scripts read.  \<open>None\<close> is \<open>null\<close>; a show whose
  field is missing altogether is read as one whose field is \<open>null\<close>.
\<close>

record event =
  show_id :: string
  artist_name :: string
  venue :: string
  day :: string
  start_time :: "string option"
  end_time :: "string option"
  no_set_time :: bool
  source :: string
  showcase :: string
  show_notes :: string
  entity_id :: "nat option"

datatype error = TypeError | ReferenceError | NaNComparator

definition startOf :: "event \<Rightarrow> int option" where
  "startOf s = (case start_time s of None \<Rightarrow> None | Some t \<Rightarrow> minutesFromDayStart t)"

text \<open>
  \<open>show.end_time ? minutesFromDayStart(show.end_time) : startMin + 45\<close>: a missing or
  empty end time gives the start plus 45 minutes.
\<close>

definition endOf :: "event \<Rightarrow> int option" where
  "endOf s =
     (case end_time s of
        None \<Rightarrow> numAdd (startOf s) (Some 45)
      | Some t \<Rightarrow> if t = [] then numAdd (startOf s) (Some 45) else minutesFromDayStart t)"

text \<open>The overlap test \<open>startA < endB && endA > startB\<close>.\<close>

definition overlaps :: "event \<Rightarrow> event \<Rightarrow> bool" where
  "overlaps a b = (numLess (startOf a) (endOf b) \<and> numLess (startOf b) (endOf a))"

section \<open>Column layout of the timeline\<close>

record active_entry =
  a_endMin :: "int option"
  a_col :: nat

record layout =
  shw :: event
  col :: nat
  totalCols :: nat

text \<open>The search \<open>let col = 0; while (usedCols.has(col)) col++\<close>, started at \<open>col\<close>.\<close>

function freeColumn :: "nat list \<Rightarrow> nat \<Rightarrow> nat" where
  "freeColumn usedCols c = (if c \<in> set usedCols then freeColumn usedCols (c + 1) else c)"
  by pat_completeness auto
termination
proof (relation "measure (\<lambda>(usedCols, c). Suc (Max (set usedCols)) - c)")
  show "wf (measure (\<lambda>(usedCols, c). Suc (Max (set usedCols)) - c))" by simp
next
  fix usedCols :: "nat list" and c :: nat
  assume "c \<in> set usedCols"
  then have "c \<le> Max (set usedCols)" by simp
  then show "((usedCols, c + 1), (usedCols, c)) \<in> measure (\<lambda>(usedCols, c). Suc (Max (set usedCols)) - c)"
    by simp
qed

declare freeColumn.simps [simp del]

text \<open>
  First pass over the sorted shows: drop the expired entries of \<open>active\<close>, take the first
  free column, record the show with \<open>totalCols = 1\<close>.
\<close>

fun placeShows :: "event list \<Rightarrow> active_entry list \<Rightarrow> layout list \<Rightarrow> layout list" where
  "placeShows [] active result = result"
| "placeShows (s # rest) active result =
     (let startMin = startOf s;
          endMin = endOf s;
          still = filter (\<lambda>a. numLess startMin (a_endMin a)) active;
          c = freeColumn (map a_col still) 0
      in placeShows rest (still @ [\<lparr>a_endMin = endMin, a_col = c\<rparr>])
           (result @ [\<lparr>shw = s, col = c, totalCols = 1\<rparr>]))"

text \<open>Second pass: the inner loop over all results, then \<open>totalCols = maxCol + 1\<close>.\<close>

definition maxColOver :: "layout list \<Rightarrow> layout \<Rightarrow> nat" where
  "maxColOver result ri =
     foldl (\<lambda>maxCol rj. if overlaps (shw ri) (shw rj) then max maxCol (col rj) else maxCol)
       (col ri) result"

definition secondPass :: "layout list \<Rightarrow> layout list" where
  "secondPass result = map (\<lambda>ri. ri\<lparr>totalCols := maxColOver result ri + 1\<rparr>) result"

text \<open>
  \<open>layoutColumns\<close>.  A show without start time makes \<open>minutesFromDayStart\<close> raise a
  TypeError.  The sort is stable and its comparator is the difference of the start
  offsets; when a start offset is NaN the comparator returns NaN and the order is the
  engine's choice, which is not modelled (\<open>NaNComparator\<close>).
\<close>

definition layoutColumns :: "event list \<Rightarrow> error + layout list" where
  "layoutColumns showList =
     (if list_ex (\<lambda>s. start_time s = None) showList then Inl TypeError
      else if list_ex (\<lambda>s. startOf s = None) showList then Inl NaNComparator
      else Inr (secondPass (placeShows (sort_key (\<lambda>s. the (startOf s)) showList) [] [])))"

text \<open>
  The two properties the first pass maintains: no two placed shows that overlap share a
  column, and every placed show that is still running at some later time has its entry
  in \<open>active\<close>.
\<close>

definition colsOk :: "layout list \<Rightarrow> bool" where
  "colsOk result = sorted_wrt (\<lambda>a b. overlaps (shw a) (shw b) \<longrightarrow> col a \<noteq> col b) result"

definition activeInv :: "int \<Rightarrow> active_entry list \<Rightarrow> layout list \<Rightarrow> bool" where
  "activeInv lo active result =
     (\<forall>r\<in>set result. \<forall>t\<ge>lo. numLess (Some t) (endOf (shw r)) \<longrightarrow>
        (\<exists>a\<in>set active. a_col a = col r \<and> a_endMin a = endOf (shw r)))"

text \<open>Three shows on one track with the offset ranges [0,60), [30,90) and [45,75).\<close>

definition exampleShow :: "string \<Rightarrow> string \<Rightarrow> string \<Rightarrow> event" where
  "exampleShow artist st en =
     \<lparr>show_id = [], artist_name = artist, venue = ''Venue'', day = ''2026-03-12'',
      start_time = Some st, end_time = Some en, no_set_time = False, source = ''official'',
      showcase = [], show_notes = [], entity_id = None\<rparr>"

definition exampleTrack :: "event list" where
  "exampleTrack = [exampleShow ''A'' ''09:00'' ''10:00'', exampleShow ''B'' ''09:30'' ''10:30'',
     exampleShow ''C'' ''09:45'' ''10:15'']"

section \<open>Rating keys and their migration\<close>

text \<open>
  An artist object with the fields the migration reads.  The ratings are an object from
  keys to numbers; a missing key is \<open>None\<close>.  A number is truthy unless it is 0, an
  entity id is truthy unless it is missing or 0.
\<close>

record artist =
  name :: string
  artist_entity_id :: "nat option"

type_synonym ratings = "string \<Rightarrow> int option"

definition truthyNum :: "int option \<Rightarrow> bool" where
  "truthyNum v = (case v of None \<Rightarrow> False | Some n \<Rightarrow> n \<noteq> 0)"

definition truthyId :: "nat option \<Rightarrow> bool" where
  "truthyId v = (case v of None \<Rightarrow> False | Some n \<Rightarrow> n \<noteq> 0)"

definition idString :: "nat option \<Rightarrow> string" where
  "idString v = (case v of None \<Rightarrow> ''null'' | Some n \<Rightarrow> toString n)"

text \<open>\<open>name.toLowerCase().replace(/[^a-z0-9]/g, '_')\<close>\<close>

definition isLowerAlnum :: "char \<Rightarrow> bool" where
  "isLowerAlnum c = (let n = (of_char c :: nat) in (97 \<le> n \<and> n \<le> 122) \<or> (48 \<le> n \<and> n \<le> 57))"

definition normalizeName :: "string \<Rightarrow> string" where
  "normalizeName s = map (\<lambda>c. if isLowerAlnum c then c else CHR ''_'') (toLowerCase s)"

definition eidKeyOf :: "artist \<Rightarrow> string" where
  "eidKeyOf a = ''eid_'' @ idString (artist_entity_id a)"

definition nameKeyOf :: "artist \<Rightarrow> string" where
  "nameKeyOf a = ''name_'' @ normalizeName (name a)"

text \<open>One round of the migration loop in \<open>loadArtists\<close>, for the artist \<open>a\<close>.\<close>

definition migrateOne :: "artist \<Rightarrow> ratings \<Rightarrow> ratings" where
  "migrateOne a ratings =
     (if \<not> truthyId (artist_entity_id a) then ratings
      else if \<not> truthyNum (ratings (eidKeyOf a)) \<and> truthyNum (ratings (nameKeyOf a))
           then (ratings(eidKeyOf a := ratings (nameKeyOf a)))(nameKeyOf a := None)
           else ratings)"

definition migrateRatings :: "artist list \<Rightarrow> ratings \<Rightarrow> ratings" where
  "migrateRatings allArtists ratings = foldl (\<lambda>r a. migrateOne a r) ratings allArtists"

text \<open>An artist for whom the loop body changes nothing.\<close>

definition settled :: "artist \<Rightarrow> ratings \<Rightarrow> bool" where
  "settled a ratings =
     (\<not> truthyId (artist_entity_id a) \<or> truthyNum (ratings (eidKeyOf a))
        \<or> \<not> truthyNum (ratings (nameKeyOf a)))"

section \<open>Loading the artists\<close>

text \<open>
  The state of the artist page that \<open>loadArtists\<close> works on.  The links of an artist are
  not modelled: merging them changes neither a name nor an entity id.
\<close>

record app_state =
  allArtists :: "artist list"
  artistRatings :: "string \<Rightarrow> int option"
  userArtists :: "artist list"







section \<open>The show collection of the schedule page\<close>

definition strOrNull :: "string option \<Rightarrow> string" where
  "strOrNull v = (case v of None \<Rightarrow> ''null'' | Some t \<Rightarrow> t)"

definition truthyStr :: "string option \<Rightarrow> bool" where
  "truthyStr v = (case v of None \<Rightarrow> False | Some t \<Rightarrow> t \<noteq> [])"

text \<open>The key string \<open>artist_name|venue|day|start_time\<close> that the merges compare.\<close>

definition showKey :: "event \<Rightarrow> string" where
  "showKey s = artist_name s @ ''|'' @ venue s @ ''|'' @ day s @ ''|'' @ strOrNull (start_time s)"

text \<open>The natural key of a show.\<close>

definition naturalKey :: "event \<Rightarrow> string \<times> string \<times> string \<times> string option" where
  "naturalKey s = (artist_name s, venue s, day s, start_time s)"

text \<open>
  The state of the schedule page: the in-memory collection, the user shows kept in local
  storage, the ratings, the map from lower-case artist names to entity ids, and the
  parsed shows that wait for a confirmation.
\<close>

record sched_state =
  allShows :: "event list"
  storedUserShows :: "event list"
  ratings :: "string \<Rightarrow> int option"
  artistEntityIdMap :: "string \<Rightarrow> nat option"
  pendingCsvShows :: "event list"

text \<open>
  \<open>loadAll\<close>: the official list is taken as it is; the unofficial list (\<open>None\<close> when the
  response is not ok or holds no array) and then the stored user shows are added, each
  show only if its key string is not among the keys collected before the loop.
\<close>

definition mergeUnofficial :: "event list \<Rightarrow> event list option \<Rightarrow> event list" where
  "mergeUnofficial showList unofficial =
     (case unofficial of
        None \<Rightarrow> showList
      | Some unofficialShows \<Rightarrow>
          if unofficialShows \<noteq> []
          then showList @ filter (\<lambda>s. showKey s \<notin> set (map showKey showList)) unofficialShows
          else showList)"

definition mergeUserShows :: "event list \<Rightarrow> event list \<Rightarrow> event list" where
  "mergeUserShows showList userShows =
     showList @ filter (\<lambda>s. showKey s \<notin> set (map showKey showList)) userShows"

definition loadAllShows :: "event list \<Rightarrow> event list option \<Rightarrow> event list \<Rightarrow> event list" where
  "loadAllShows official unofficial userShows =
     mergeUserShows (mergeUnofficial official unofficial) userShows"

text \<open>\<open>appendUserShows\<close> and the confirmation handler of the CSV import.\<close>

definition appendUserShows :: "event list \<Rightarrow> event list \<Rightarrow> event list" where
  "appendUserShows existing newShows =
     existing @ filter (\<lambda>s. showKey s \<notin> set (map showKey existing)) newShows"

definition confirmImport :: "sched_state \<Rightarrow> sched_state" where
  "confirmImport st =
     (if pendingCsvShows st = [] then st
      else let newShows = filter (\<lambda>s. showKey s \<notin> set (map showKey (allShows st)))
                            (pendingCsvShows st)
           in st\<lparr>allShows := allShows st @ newShows,
                 storedUserShows := appendUserShows (storedUserShows st) newShows\<rparr>)"

text \<open>\<open>deleteShow\<close>: both lists are filtered with the field-wise comparison.\<close>

definition sameShow :: "event \<Rightarrow> event \<Rightarrow> bool" where
  "sameShow s sh = (artist_name s = artist_name sh \<and> venue s = venue sh
     \<and> day s = day sh \<and> start_time s = start_time sh)"

definition deleteShow :: "event \<Rightarrow> sched_state \<Rightarrow> sched_state" where
  "deleteShow sh st =
     st\<lparr>allShows := filter (\<lambda>s. \<not> sameShow s sh) (allShows st),
        storedUserShows := filter (\<lambda>s. \<not> sameShow s sh) (storedUserShows st)\<rparr>"

section \<open>Ratings of shows and conflicts on the timeline\<close>

definition showRatingKey :: "(string \<Rightarrow> nat option) \<Rightarrow> event \<Rightarrow> string" where
  "showRatingKey eidMap s =
     (if truthyId (entity_id s) then ''eid_'' @ idString (entity_id s)
      else let nm = toLowerCase (artist_name s); eid = eidMap nm
           in if truthyId eid then ''eid_'' @ idString eid
              else ''name_'' @ map (\<lambda>c. if isLowerAlnum c then c else CHR ''_'') nm)"

definition getRating :: "(string \<Rightarrow> int option) \<Rightarrow> (string \<Rightarrow> nat option) \<Rightarrow> event \<Rightarrow> int" where
  "getRating rs eidMap s = (case rs (showRatingKey eidMap s) of None \<Rightarrow> 0 | Some v \<Rightarrow> v)"

text \<open>The shows of the day that the timeline draws.\<close>

definition timelineShows :: "event list \<Rightarrow> event list" where
  "timelineShows today = filter (\<lambda>s. truthyStr (start_time s) \<and> \<not> no_set_time s) today"

text \<open>The string a show is entered under in the set \<open>conflicting\<close>.\<close>

definition conflictId :: "event \<Rightarrow> string" where
  "conflictId s = artist_name s @ venue s @ strOrNull (start_time s)"

text \<open>The double loop over the rated shows, \<open>j\<close> running above \<open>i\<close>: the strings added.\<close>

fun conflictPairs :: "event list \<Rightarrow> string list" where
  "conflictPairs [] = []"
| "conflictPairs (a # rest) =
     concat (map (\<lambda>b. if overlaps a b then [conflictId a, conflictId b] else []) rest)
       @ conflictPairs rest"

definition conflicting :: "(string \<Rightarrow> int option) \<Rightarrow> (string \<Rightarrow> nat option) \<Rightarrow> event list \<Rightarrow> string set" where
  "conflicting rs eidMap showList =
     set (conflictPairs (filter (\<lambda>s. getRating rs eidMap s > 0) showList))"

definition isConflict :: "(string \<Rightarrow> int option) \<Rightarrow> (string \<Rightarrow> nat option) \<Rightarrow> event list \<Rightarrow> event \<Rightarrow> bool" where
  "isConflict rs eidMap showList s = (conflictId s \<in> conflicting rs eidMap showList)"

text \<open>
  The shows of the timeline that are drawn with the conflict mark.  The timeline draws
  them in the order of the layout; whether a show gets the mark does not depend on it.
\<close>

definition flaggedShows :: "(string \<Rightarrow> int option) \<Rightarrow> (string \<Rightarrow> nat option) \<Rightarrow> event list \<Rightarrow> event list" where
  "flaggedShows rs eidMap today =
     filter (isConflict rs eidMap (timelineShows today)) (timelineShows today)"

text \<open>A user show without end time, for the examples.\<close>

definition userShow :: "string \<Rightarrow> string \<Rightarrow> string \<Rightarrow> event" where
  "userShow artist v st =
     \<lparr>show_id = [], artist_name = artist, venue = v, day = ''2026-03-12'',
      start_time = Some st, end_time = None, no_set_time = False, source = ''user'',
      showcase = [], show_notes = [], entity_id = None\<rparr>"

text \<open>A state and a day of shows for the examples.\<close>

definition exampleState :: sched_state where
  "exampleState = \<lparr>allShows = [userShow ''AB'' ''C'' ''10:00''], storedUserShows = [userShow ''AB'' ''C'' ''10:00''],
     ratings = [''name_ab'' \<mapsto> 3, ''name_d'' \<mapsto> 3], artistEntityIdMap = Map.empty,
     pendingCsvShows = [userShow ''AB'' ''C'' ''10:00'', userShow ''D'' ''E'' ''10:15'']\<rparr>"

definition conflictDay :: "event list" where
  "conflictDay = [userShow ''AB'' ''C'' ''10:00'', userShow ''D'' ''E'' ''10:15'',
     userShow ''A'' ''BC'' ''10:00'']"

section \<open>The schedule importer\<close>

text \<open>\<open>csvText.split(/\r?\n/)\<close>: a line ends at a line feed, with the carriage return before it if there is one.\<close>

fun splitLines :: "string \<Rightarrow> string list" where
  "splitLines [] = [[]]"
| "splitLines [c] = (if c = CHR 0x0A then [[], []] else [[c]])"
| "splitLines (c # d # cs) =
     (if c = CHR 0x0A then [] # splitLines (d # cs)
      else if c = CHR 0x0D \<and> d = CHR 0x0A then [] # splitLines cs
      else (case splitLines (d # cs) of
              [] \<Rightarrow> [[c]]
            | r # rs \<Rightarrow> (c # r) # rs))"

text \<open>
  The field splitter: a double quote toggles \<open>inQuotes\<close> and is dropped, a comma outside
  quotes ends the field, every field is trimmed.
\<close>

fun splitFields :: "string \<Rightarrow> string list \<Rightarrow> string \<Rightarrow> bool \<Rightarrow> string list" where
  "splitFields [] result current inQuotes = result @ [trim current]"
| "splitFields (ch # row) result current inQuotes =
     (if ch = CHR 0x22 then splitFields row result current (\<not> inQuotes)
      else if ch = CHR '','' \<and> \<not> inQuotes then splitFields row (result @ [trim current]) [] inQuotes
      else splitFields row result (current @ [ch]) inQuotes)"

definition csvRows :: "string \<Rightarrow> string list list" where
  "csvRows csvText = map (\<lambda>row. splitFields row [] [] False) (splitLines csvText)"

text \<open>
  The hour marker \<open>/^(\d{1,2}):(\d{2})\s*(AM|PM)$/i\<close>: one or two digits, a colon, two
  digits, white space, AM or PM in either case, and nothing else.  The result holds the
  three groups.
\<close>

definition hourMatch :: "string \<Rightarrow> (string \<times> string \<times> string) option" where
  "hourMatch label =
     (let hs = takeWhile isDigit label; r1 = dropWhile isDigit label in
      if (length hs = 1 \<or> length hs = 2) \<and> take 1 r1 = '':'' then
        let ms = take 2 (drop 1 r1); r2 = dropWhile isSpace (drop 3 r1) in
        if length ms = 2 \<and> list_all isDigit ms \<and> (toUpperCase r2 = ''AM'' \<or> toUpperCase r2 = ''PM'')
        then Some (hs, ms, r2) else None
      else None)"

text \<open>The test \<open>/^(day\s*\d|<|>)/i\<close> for day labels and navigation hints.\<close>

definition isNavLabel :: "string \<Rightarrow> bool" where
  "isNavLabel label =
     (take 1 label = ''<'' \<or> take 1 label = ''>'' \<or>
      (toLowerCase (take 3 label) = ''day'' \<and>
       (case dropWhile isSpace (drop 3 label) of [] \<Rightarrow> False | d # _ \<Rightarrow> isDigit d)))"

fun includesStr :: "string \<Rightarrow> string \<Rightarrow> bool" where
  "includesStr [] sub = (sub = [])"
| "includesStr (c # cs) sub = (take (length sub) (c # cs) = sub \<or> includesStr cs sub)"

text \<open>
  The time override \<open>/\((\d{3,4})\)\s*$/\<close>: the cell ends, white space apart, with three
  or four digits in parentheses.  The result is the text before the opening parenthesis
  and the digits.
\<close>

definition timeOverride :: "string \<Rightarrow> (string \<times> string) option" where
  "timeOverride cell =
     (case dropWhile isSpace (rev cell) of
        [] \<Rightarrow> None
      | c # r \<Rightarrow>
          if c \<noteq> CHR '')'' then None
          else let ds = rev (takeWhile isDigit r) in
            (case dropWhile isDigit r of
               [] \<Rightarrow> None
             | p # pre \<Rightarrow>
                 if p = CHR ''('' \<and> (length ds = 3 \<or> length ds = 4) then Some (rev pre, ds)
                 else None))"

text \<open>\<open>String(x)\<close> for a number that may be NaN.\<close>

definition numString :: "int option \<Rightarrow> string" where
  "numString v =
     (case v of
        None \<Rightarrow> ''NaN''
      | Some n \<Rightarrow> if n < 0 then CHR ''-'' # toString (nat (- n)) else toString (nat n))"

text \<open>The slot time of a data row: the base time plus \<open>slotOffset\<close> half hours, wrapped at 24 hours.\<close>

definition defaultSlotTime :: "string \<Rightarrow> nat \<Rightarrow> string" where
  "defaultSlotTime base offset =
     (let (baseH, baseM) = twoNumbers base;
          slotTotalMin = numAdd (numAdd (map_option (\<lambda>h. h * 60) baseH) baseM)
                           (Some (int offset * 30));
          slotHH = map_option (\<lambda>t. (t div 60) mod 24) slotTotalMin;
          slotMM = map_option (\<lambda>t. t mod 60) slotTotalMin
      in padStart 2 (CHR ''0'') (numString slotHH) @ CHR '':'' # padStart 2 (CHR ''0'') (numString slotMM))"

text \<open>
  The parser's variables.  \<open>parsedShows\<close> is the array of shows built so far.  The id of
  a show holds the reading of the clock at the moment it is pushed; \<open>clock k\<close> is the
  reading when \<open>k\<close> shows have been pushed before.
\<close>

record csv_state =
  currentBaseTime :: "string option"
  slotOffset :: nat
  parsedShows :: "event list"

text \<open>The body of the loop over the cells of a data row, for column \<open>c\<close>.\<close>

definition parseCell ::
  "(nat \<Rightarrow> nat) \<Rightarrow> string \<Rightarrow> string list \<Rightarrow> string \<Rightarrow> event list \<Rightarrow> nat \<times> string \<Rightarrow> event list" where
  "parseCell clock dayStr venues slotTime acc cc =
     (let c = fst cc; cell = trim (snd cc) in
      if cell = [] then acc
      else if \<not> (c - 1 < length venues) then acc
      else let v = venues ! (c - 1) in
        if v = [] then acc
        else if take 1 cell = ''('' \<or> take 1 cell = ''<'' \<or> take 1 cell = ''>''
                \<or> includesStr (toLowerCase cell) ''no set times'' then acc
        else let (startTime, artistName) =
                   (case timeOverride cell of
                      None \<Rightarrow> (slotTime, cell)
                    | Some (pre, ds) \<Rightarrow>
                        let t = padStart 4 (CHR ''0'') ds;
                            h0 = parseDigits (take 2 t);
                            m = drop 2 t;
                            h = (if h0 < 9 then h0 + 12 else h0)
                        in (padStart 2 (CHR ''0'') (toString h) @ CHR '':'' # m,
                            trim (rev (dropWhile isSpace (rev pre)))))
             in if artistName = [] then acc
                else acc @ [\<lparr>show_id = ''csv_'' @ toString (clock (length acc)) @ ''_''
                                         @ toString (length acc),
                              artist_name = artistName, venue = v, day = dayStr,
                              start_time = Some startTime, end_time = None,
                              no_set_time = False, source = ''user'', showcase = [],
                              show_notes = [], entity_id = None\<rparr>])"

text \<open>The time label of a row: its first field, trimmed.\<close>

definition rowLabel :: "string list \<Rightarrow> string" where
  "rowLabel row = trim (case row of [] \<Rightarrow> [] | f # _ \<Rightarrow> f)"

text \<open>
  The body of the loop over the rows after the header.  Reading \<open>currentBaseTime.split\<close>
  while \<open>currentBaseTime\<close> is \<open>null\<close> would raise a TypeError.
\<close>

definition parseRow ::
  "(nat \<Rightarrow> nat) \<Rightarrow> string \<Rightarrow> string list \<Rightarrow> csv_state \<Rightarrow> string list \<Rightarrow> error + csv_state" where
  "parseRow clock dayStr venues st row =
     (if list_all (\<lambda>c. c = []) row then Inr st
      else let timeLabel = rowLabel row in
        case hourMatch timeLabel of
          Some (hs, ms, per) \<Rightarrow>
            let h0 = parseDigits hs;
                period = toUpperCase per;
                h1 = (if period = ''PM'' \<and> h0 \<noteq> 12 then h0 + 12 else h0);
                h = (if period = ''AM'' \<and> h1 = 12 then 0 else h1)
            in Inr (st\<lparr>currentBaseTime := Some (padStart 2 (CHR ''0'') (toString h) @ CHR '':'' # ms),
                        slotOffset := 0\<rparr>)
        | None \<Rightarrow>
            let st1 = (if timeLabel = [] then st\<lparr>slotOffset := 1\<rparr> else st) in
            if timeLabel \<noteq> [] \<and> isNavLabel timeLabel then Inr st1
            else if \<not> truthyStr (currentBaseTime st1) then Inr st1
            else (case currentBaseTime st1 of
                    None \<Rightarrow> Inl TypeError
                  | Some base \<Rightarrow>
                      Inr (st1\<lparr>parsedShows :=
                        foldl (parseCell clock dayStr venues (defaultSlotTime base (slotOffset st1)))
                          (parsedShows st1) (zip [1..<length row] (tl row))\<rparr>)))"

fun parseRows ::
  "(nat \<Rightarrow> nat) \<Rightarrow> string \<Rightarrow> string list \<Rightarrow> csv_state \<Rightarrow> string list list \<Rightarrow> error + csv_state" where
  "parseRows clock dayStr venues st [] = Inr st"
| "parseRows clock dayStr venues st (row # rows) =
     (case parseRow clock dayStr venues st row of
        Inl e \<Rightarrow> Inl e
      | Inr st' \<Rightarrow> parseRows clock dayStr venues st' rows)"

text \<open>
  \<open>parseScheduleCsv\<close>: the first row gives the venues, its first field apart, with the
  arrows \<open><\<close> and \<open>>\<close> removed; the other rows are scanned from the top.
\<close>

definition parseScheduleCsv :: "(nat \<Rightarrow> nat) \<Rightarrow> string \<Rightarrow> string \<Rightarrow> error + event list" where
  "parseScheduleCsv clock csvText dayStr =
     (case csvRows csvText of
        [] \<Rightarrow> Inr []
      | header # body \<Rightarrow>
          let venues = map (\<lambda>v. trim (filter (\<lambda>c. c \<noteq> CHR ''<'' \<and> c \<noteq> CHR ''>'') v)) (tl header)
          in (case parseRows clock dayStr venues
                     \<lparr>currentBaseTime = None, slotOffset = 0, parsedShows = []\<rparr> body of
                Inl e \<Rightarrow> Inl e
              | Inr st \<Rightarrow> Inr (parsedShows st)))"

text \<open>The shows a run of the importer hands to its caller: none when it raised.\<close>

definition emitted :: "error + event list \<Rightarrow> event list" where
  "emitted r = (case r of Inl e \<Rightarrow> [] | Inr evs \<Rightarrow> evs)"

definition zeroClock :: "nat \<Rightarrow> nat" where
  "zeroClock k = 0"

text \<open>The example grid: a header, an hour-marker row with two bands, a second-slot row.\<close>

definition exampleCsv :: string where
  "exampleCsv = ''Time,Venue A,Venue B'' @ [CHR 0x0A] @ ''9:00 AM,Band X,Band Y'' @ [CHR 0x0A]
     @ '',Band Z,''"

text \<open>Every show of the list has the source \<open>user\<close>.\<close>

definition userSourced :: "event list \<Rightarrow> bool" where
  "userSourced evs = list_all (\<lambda>e. source e = ''user'') evs"

section \<open>Facts about digits and time strings\<close>

lemma isDigit_digitChar: "d < 10 \<Longrightarrow> isDigit (digitChar d)"
  by (simp add: isDigit_def digitChar_def)

lemma digitVal_digitChar: "d < 10 \<Longrightarrow> digitVal (digitChar d) = d"
  by (simp add: digitVal_def digitChar_def)

lemma digitChar_not_colon: "d < 10 \<Longrightarrow> digitChar d \<noteq> CHR '':''"
proof
  assume d: "d < 10" and e: "digitChar d = CHR '':''"
  have "(of_char (digitChar d) :: nat) = of_char (CHR '':'')" using e by simp
  then show False using d by (simp add: digitChar_def)
qed

lemma digitChar_0: "digitChar 0 = CHR ''0''"
  by (simp add: digitChar_def char_of_eq_iff)

lemma pad2_toString: "n < 100 \<Longrightarrow>
  padStart 2 (CHR ''0'') (toString n) = [digitChar (n div 10), digitChar (n mod 10)]"
proof -
  assume n: "n < 100"
  show ?thesis
  proof (cases "n < 10")
    case True
    then show ?thesis
      by (simp add: toString.simps [of n] padStart_def digitChar_0)
  next
    case False
    then have "n div 10 < 10" using n by simp
    then show ?thesis using False
      by (simp add: toString.simps [of n] toString.simps [of "n div 10"] padStart_def)
  qed
qed

lemma toNumber_two_digits: "a < 10 \<Longrightarrow> b < 10 \<Longrightarrow>
  toNumber [digitChar a, digitChar b] = Some (int (10 * a + b))"
  by (simp add: toNumber_def parseDigits_def isDigit_digitChar digitVal_digitChar)

lemma splitChar_digits: "list_all (\<lambda>c. c \<noteq> sep) s \<Longrightarrow> splitChar sep s = [s]"
  by (induction s) auto

lemma minutesFromDayStart_formatHHMM:
  assumes "h < 100" "m < 100"
  shows "minutesFromDayStart (formatHHMM h m) =
    Some (((if int h < 9 then int h + 24 else int h) - 9) * 60 + int m)"
proof -
  let ?a = "h div 10" and ?b = "h mod 10" and ?c = "m div 10" and ?d = "m mod 10"
  have lt: "?a < 10" "?b < 10" "?c < 10" "?d < 10" using assms by simp_all
  have fmt: "formatHHMM h m =
      digitChar ?a # digitChar ?b # CHR '':'' # [digitChar ?c, digitChar ?d]"
    using assms by (simp add: formatHHMM_def pad2_toString)
  have tl: "splitChar (CHR '':'') [digitChar ?c, digitChar ?d] = [[digitChar ?c, digitChar ?d]]"
    using lt by (intro splitChar_digits) (simp add: digitChar_not_colon)
  have sp: "splitChar (CHR '':'') (formatHHMM h m) =
      [[digitChar ?a, digitChar ?b], [digitChar ?c, digitChar ?d]]"
    unfolding fmt using lt tl by (simp add: digitChar_not_colon del: splitChar.simps(2)
      add: splitChar.simps(2) [of _ "digitChar ?a"] splitChar.simps(2) [of _ "digitChar ?b"]
           splitChar.simps(2) [of _ "CHR '':''"])
  have nh: "toNumber [digitChar ?a, digitChar ?b] = Some (int h)"
    using lt by (simp add: toNumber_two_digits)
  have nm: "toNumber [digitChar ?c, digitChar ?d] = Some (int m)"
    using lt by (simp add: toNumber_two_digits)
  show ?thesis
    by (simp add: minutesFromDayStart_def twoNumbers_def sp nh nm DAY_START_HOUR_def
        numLess_def numAdd_def)
qed

section \<open>Midnight continuity\<close>

text \<open>
  C4: \<open>minutesFromDayStart\<close> maps a time \<open>HH:MM\<close> to \<open>(H + 24 - 9) * 60 + M\<close> when the
  hour is below the day-start hour 9 and to \<open>(H - 9) * 60 + M\<close> otherwise.  Hence a time
  with an hour below 9 lies strictly later on the axis than any time of the same night
  with an hour from 9 to 23, and \<open>00:30\<close> lies later than \<open>23:45\<close>.
\<close>

theorem minutesFromDayStart_midnight:
  assumes "h1 < 9" "9 \<le> h2" "h2 < 24" "m1 < 60" "m2 < 60"
  shows "minutesFromDayStart (formatHHMM h1 m1) = Some ((int h1 + 24 - 9) * 60 + int m1)
    \<and> minutesFromDayStart (formatHHMM h2 m2) = Some ((int h2 - 9) * 60 + int m2)
    \<and> the (minutesFromDayStart (formatHHMM h2 m2)) < the (minutesFromDayStart (formatHHMM h1 m1))
    \<and> minutesFromDayStart ''00:30'' = Some 930
    \<and> minutesFromDayStart ''23:45'' = Some 885"
proof -
  have a: "minutesFromDayStart (formatHHMM h1 m1) = Some ((int h1 + 24 - 9) * 60 + int m1)"
    using assms minutesFromDayStart_formatHHMM [of h1 m1] by simp
  have b: "minutesFromDayStart (formatHHMM h2 m2) = Some ((int h2 - 9) * 60 + int m2)"
    using assms minutesFromDayStart_formatHHMM [of h2 m2] by simp
  have c: "minutesFromDayStart ''00:30'' = Some 930"
    by (simp add: minutesFromDayStart_def twoNumbers_def toNumber_def parseDigits_def
        isDigit_def digitVal_def DAY_START_HOUR_def numLess_def numAdd_def)
  have d: "minutesFromDayStart ''23:45'' = Some 885"
    by (simp add: minutesFromDayStart_def twoNumbers_def toNumber_def parseDigits_def
        isDigit_def digitVal_def DAY_START_HOUR_def numLess_def numAdd_def)
  show ?thesis using a b c d assms by simp
qed

theorem minutesFromDayStart_midnight_witness:
  "(0::nat) < 9 \<and> (9::nat) \<le> 23 \<and> (23::nat) < 24 \<and> (30::nat) < 60 \<and> (45::nat) < 60
   \<and> formatHHMM 0 30 = ''00:30'' \<and> formatHHMM 23 45 = ''23:45''
   \<and> minutesFromDayStart (formatHHMM 0 30) = Some 930
   \<and> minutesFromDayStart (formatHHMM 23 45) = Some 885
   \<and> the (minutesFromDayStart (formatHHMM 23 45)) < the (minutesFromDayStart (formatHHMM 0 30))"
proof -
  have f1: "formatHHMM 0 30 = ''00:30''"
    by code_simp
  have f2: "formatHHMM 23 45 = ''23:45''"
    by code_simp
  show ?thesis
    using minutesFromDayStart_midnight [of 0 23 30 45] f1 f2 by simp
qed

section \<open>Column packing\<close>

lemma freeColumn_free: "freeColumn usedCols c \<notin> set usedCols"
  by (induction usedCols c rule: freeColumn.induct) (simp add: freeColumn.simps)

lemma overlaps_sym: "overlaps a b = overlaps b a"
  by (auto simp: overlaps_def)

lemma placeShows_colsOk:
  assumes "sorted (map (\<lambda>s. the (startOf s)) xs)"
    and "\<forall>s\<in>set xs. startOf s \<noteq> None \<and> lo \<le> the (startOf s)"
    and "activeInv lo active result"
    and "colsOk result"
  shows "colsOk (placeShows xs active result)"
  using assms
proof (induction xs arbitrary: lo active result)
  case Nil
  then show ?case by simp
next
  case (Cons s xs)
  obtain st where st: "startOf s = Some st" using Cons.prems(2) by auto
  have lo: "lo \<le> st" using Cons.prems(2) st by auto
  let ?still = "filter (\<lambda>a. numLess (Some st) (a_endMin a)) active"
  let ?c = "freeColumn (map a_col ?still) 0"
  let ?active = "?still @ [\<lparr>a_endMin = endOf s, a_col = ?c\<rparr>]"
  let ?r = "\<lparr>shw = s, col = ?c, totalCols = 1\<rparr>"
  let ?result = "result @ [?r]"
  have step: "placeShows (s # xs) active result = placeShows xs ?active ?result"
    by (simp add: st Let_def)
  have surv: "\<exists>a\<in>set ?still. a_col a = col r \<and> a_endMin a = endOf (shw r)"
    if r: "r \<in> set result" and t: "st \<le> t" and e: "numLess (Some t) (endOf (shw r))" for r t
  proof -
    from Cons.prems(3) r lo t e obtain a where a: "a \<in> set active" "a_col a = col r"
      "a_endMin a = endOf (shw r)" unfolding activeInv_def by (meson order_trans)
    have "numLess (Some st) (a_endMin a)" using e t a(3)
      by (auto simp: numLess_def split: option.splits)
    then show ?thesis using a by auto
  qed
  have inv: "activeInv st ?active ?result"
    unfolding activeInv_def
  proof (intro ballI allI impI)
    fix r t assume r: "r \<in> set ?result" and t: "st \<le> t" and e: "numLess (Some t) (endOf (shw r))"
    show "\<exists>a\<in>set ?active. a_col a = col r \<and> a_endMin a = endOf (shw r)"
    proof (cases "r \<in> set result")
      case True
      from surv [OF True t e] show ?thesis by auto
    next
      case False
      then have "r = ?r" using r by simp
      then show ?thesis by simp
    qed
  qed
  have ok: "colsOk ?result"
    unfolding colsOk_def sorted_wrt_append
  proof (intro conjI ballI)
    show "sorted_wrt (\<lambda>a b. overlaps (shw a) (shw b) \<longrightarrow> col a \<noteq> col b) result"
      using Cons.prems(4) by (simp add: colsOk_def)
    show "sorted_wrt (\<lambda>a b. overlaps (shw a) (shw b) \<longrightarrow> col a \<noteq> col b) [?r]" by simp
  next
    fix x y assume x: "x \<in> set result" and y: "y \<in> set [?r]"
    show "overlaps (shw x) (shw y) \<longrightarrow> col x \<noteq> col y"
    proof
      assume "overlaps (shw x) (shw y)"
      then have "numLess (Some st) (endOf (shw x))" using y st by (simp add: overlaps_def)
      from surv [OF x order_refl this] obtain a where "a \<in> set ?still" "a_col a = col x" by auto
      then have "col x \<in> set (map a_col ?still)" by force
      moreover have "?c \<notin> set (map a_col ?still)" by (rule freeColumn_free)
      ultimately show "col x \<noteq> col y" using y by auto
    qed
  qed
  have srt: "sorted (map (\<lambda>s. the (startOf s)) xs)" using Cons.prems(1) by simp
  have bnd: "\<forall>s'\<in>set xs. startOf s' \<noteq> None \<and> st \<le> the (startOf s')"
    using Cons.prems(1,2) st by auto
  show ?case unfolding step by (rule Cons.IH [OF srt bnd inv ok])
qed

lemma placeShows_shw: "map shw (placeShows xs active result) = map shw result @ xs"
  by (induction xs arbitrary: active result) (simp_all add: Let_def)

lemma secondPass_shw: "map shw (secondPass result) = map shw result"
  by (simp add: secondPass_def comp_def)

lemma secondPass_col: "map col (secondPass result) = map col result"
  by (simp add: secondPass_def comp_def)

lemma colsOk_secondPass: "colsOk result \<Longrightarrow> colsOk (secondPass result)"
  by (simp add: colsOk_def secondPass_def sorted_wrt_map)



lemma layoutColumns_Inr:
  assumes "\<forall>s\<in>set showList. startOf s \<noteq> None"
  shows "layoutColumns showList =
    Inr (secondPass (placeShows (sort_key (\<lambda>s. the (startOf s)) showList) [] []))"
proof -
  have a: "\<not> list_ex (\<lambda>s. startOf s = None) showList" using assms by (simp add: list_ex_iff)
  have b: "\<not> list_ex (\<lambda>s. start_time s = None) showList"
    using assms by (fastforce simp: list_ex_iff startOf_def split: option.splits)
  show ?thesis by (simp add: layoutColumns_def a b)
qed


lemma firstPass_colsOk:
  assumes "\<forall>s\<in>set showList. startOf s \<noteq> None"
  shows "colsOk (placeShows (sort_key (\<lambda>s. the (startOf s)) showList) [] [])"
proof (cases "showList = []")
  case True
  then show ?thesis by (simp add: colsOk_def)
next
  case False
  define lo where "lo = Min ((\<lambda>s. the (startOf s)) ` set showList)"
  have lo: "\<forall>s\<in>set showList. lo \<le> the (startOf s)" unfolding lo_def by simp
  show ?thesis
  proof (rule placeShows_colsOk [where lo = lo])
    show "sorted (map (\<lambda>s. the (startOf s)) (sort_key (\<lambda>s. the (startOf s)) showList))"
      by (rule sorted_sort_key)
    show "\<forall>s\<in>set (sort_key (\<lambda>s. the (startOf s)) showList). startOf s \<noteq> None \<and> lo \<le> the (startOf s)"
      using assms lo by simp
    show "activeInv lo [] []" by (simp add: activeInv_def)
    show "colsOk []" by (simp add: colsOk_def)
  qed
qed




text \<open>
  C2: for every list of shows that each have a start time, \<open>layoutColumns\<close> returns a
  layout of the shows in start order in which no two different entries whose offset
  ranges overlap (\<open>startA < endB && endA > startB\<close>, a missing end being the start plus
  45 minutes) have the same column.
\<close>

theorem layoutColumns_no_shared_column:
  assumes "\<forall>s\<in>set showList. startOf s \<noteq> None"
  shows "\<exists>res. layoutColumns showList = Inr res
     \<and> map shw res = sort_key (\<lambda>s. the (startOf s)) showList
     \<and> (\<forall>i<length res. \<forall>j<length res.
           i \<noteq> j \<and> overlaps (shw (res ! i)) (shw (res ! j)) \<longrightarrow> col (res ! i) \<noteq> col (res ! j))"
proof -
  let ?res = "secondPass (placeShows (sort_key (\<lambda>s. the (startOf s)) showList) [] [])"
  have ok: "colsOk ?res" using assms by (intro colsOk_secondPass firstPass_colsOk)
  have p: "col (?res ! i) \<noteq> col (?res ! j)"
    if "i < j" "j < length ?res" "overlaps (shw (?res ! i)) (shw (?res ! j))" for i j
    using ok that unfolding colsOk_def sorted_wrt_iff_nth_less by blast
  have q: "col (?res ! i) \<noteq> col (?res ! j)"
    if ij: "i < length ?res" "j < length ?res" "i \<noteq> j"
      and ov: "overlaps (shw (?res ! i)) (shw (?res ! j))" for i j
  proof (cases "i < j")
    case True
    then show ?thesis using p ij ov by blast
  next
    case False
    then have "j < i" using ij by simp
    moreover have "overlaps (shw (?res ! j)) (shw (?res ! i))" using ov overlaps_sym by blast
    ultimately have "col (?res ! j) \<noteq> col (?res ! i)" using p ij by blast
    then show ?thesis by simp
  qed
  have m: "map shw ?res = sort_key (\<lambda>s. the (startOf s)) showList"
    by (simp add: secondPass_shw placeShows_shw)
  show ?thesis using layoutColumns_Inr [OF assms] m q by blast
qed

theorem layoutColumns_no_shared_column_witness:
  "list_all (\<lambda>s. startOf s \<noteq> None) exampleTrack
   \<and> overlaps (exampleTrack ! 0) (exampleTrack ! 1)
   \<and> (\<exists>res. layoutColumns exampleTrack = Inr res
        \<and> map shw res = sort_key (\<lambda>s. the (startOf s)) exampleTrack
        \<and> (\<forall>i<length res. \<forall>j<length res.
              i \<noteq> j \<and> overlaps (shw (res ! i)) (shw (res ! j)) \<longrightarrow> col (res ! i) \<noteq> col (res ! j)))"
proof -
  have h: "\<forall>s\<in>set exampleTrack. startOf s \<noteq> None" by code_simp
  have o: "overlaps (exampleTrack ! 0) (exampleTrack ! 1)" by code_simp
  show ?thesis
    using h o layoutColumns_no_shared_column [OF h] unfolding list_all_iff by blast
qed



section \<open>The rating-key migration\<close>

lemma eidKey_neq_nameKey: "eidKeyOf a \<noteq> nameKeyOf b"
  by (simp add: eidKeyOf_def nameKeyOf_def)

lemma migrateOne_settled_id: "settled a r \<Longrightarrow> migrateOne a r = r"
  by (auto simp: settled_def migrateOne_def)

lemma migrateOne_settles: "settled a (migrateOne a r)"
  using eidKey_neq_nameKey [of a a] by (auto simp: settled_def migrateOne_def)

lemma migrateOne_keeps_eid: "truthyNum (r (eidKeyOf a)) \<Longrightarrow> truthyNum (migrateOne b r (eidKeyOf a))"
  using eidKey_neq_nameKey [of a b] by (auto simp: migrateOne_def)

lemma migrateOne_keeps_name:
  "\<not> truthyNum (r (nameKeyOf a)) \<Longrightarrow> \<not> truthyNum (migrateOne b r (nameKeyOf a))"
  using eidKey_neq_nameKey [of b a] by (auto simp: migrateOne_def truthyNum_def)

lemma migrateOne_keeps_settled: "settled a r \<Longrightarrow> settled a (migrateOne b r)"
  unfolding settled_def using migrateOne_keeps_eid migrateOne_keeps_name by blast

lemma migrate_all_settled:
  "\<forall>a\<in>S. settled a r \<Longrightarrow>
     \<forall>a\<in>S \<union> set as. settled a (foldl (\<lambda>r a. migrateOne a r) r as)"
proof (induction as arbitrary: r S)
  case Nil
  then show ?case by simp
next
  case (Cons b as)
  have "\<forall>a\<in>insert b S. settled a (migrateOne b r)"
    using Cons.prems migrateOne_settles migrateOne_keeps_settled by blast
  from Cons.IH [OF this] show ?case by simp
qed

lemma migrate_settled_id:
  "\<forall>a\<in>set as. settled a r \<Longrightarrow> foldl (\<lambda>r a. migrateOne a r) r as = r"
  by (induction as) (simp_all add: migrateOne_settled_id)

text \<open>
  The loop of the migration, taken by itself, changes nothing when it is run a second
  time, and it moves the rating of Band X from \<open>name_band_x\<close> to \<open>eid_42\<close>.
\<close>

lemma migrateRatings_twice:
  "migrateRatings artists (migrateRatings artists rs) = migrateRatings artists rs"
proof -
  have "\<forall>a\<in>{} \<union> set artists. settled a (foldl (\<lambda>r a. migrateOne a r) rs artists)"
    by (rule migrate_all_settled) simp
  then show ?thesis unfolding migrateRatings_def by (simp add: migrate_settled_id)
qed

lemma migrateRatings_band_x:
  "migrateRatings [\<lparr>name = ''Band X'', artist_entity_id = Some 42\<rparr>] [''name_band_x'' \<mapsto> 3] ''eid_42'' = Some 3
   \<and> migrateRatings [\<lparr>name = ''Band X'', artist_entity_id = Some 42\<rparr>] [''name_band_x'' \<mapsto> 3] ''name_band_x'' = None"
  by code_simp


section \<open>Merging, deleting and flagging shows\<close>

lemma naturalKey_showKey: "naturalKey a = naturalKey b \<Longrightarrow> showKey a = showKey b"
  by (simp add: naturalKey_def showKey_def)

lemma sameShow_naturalKey: "sameShow s sh = (naturalKey s = naturalKey sh)"
  by (auto simp: sameShow_def naturalKey_def)

lemma distinct_add_missing:
  assumes "distinct (map naturalKey xs)" "distinct (map naturalKey ys)"
  shows "distinct (map naturalKey (xs @ filter (\<lambda>s. showKey s \<notin> set (map showKey xs)) ys))"
proof -
  have d: "distinct (map naturalKey (filter (\<lambda>s. showKey s \<notin> set (map showKey xs)) ys))"
    using assms(2) by (rule distinct_map_filter)
  have "naturalKey x \<noteq> naturalKey y"
    if "x \<in> set xs" "y \<in> set ys" "showKey y \<notin> set (map showKey xs)" for x y
    using that naturalKey_showKey [of x y] by (auto simp: image_iff)
  then have "set (map naturalKey xs) \<inter>
      set (map naturalKey (filter (\<lambda>s. showKey s \<notin> set (map showKey xs)) ys)) = {}"
    by fastforce
  then show ?thesis using assms(1) d by simp
qed

lemma mergeUnofficial_distinct:
  assumes "distinct (map naturalKey showList)"
    and "\<And>us. unofficial = Some us \<Longrightarrow> distinct (map naturalKey us)"
  shows "distinct (map naturalKey (mergeUnofficial showList unofficial))"
  using assms by (auto simp only: mergeUnofficial_def split: option.splits if_splits
      intro: distinct_add_missing)

lemma loadAllShows_distinct:
  assumes "distinct (map naturalKey official)"
    and "\<forall>us. unofficial = Some us \<longrightarrow> distinct (map naturalKey us)"
    and "distinct (map naturalKey userShows)"
  shows "distinct (map naturalKey (loadAllShows official unofficial userShows))"
proof -
  have "distinct (map naturalKey (mergeUnofficial official unofficial))"
    using assms(1,2) by (intro mergeUnofficial_distinct) auto
  then show ?thesis
    unfolding loadAllShows_def mergeUserShows_def using assms(3) by (rule distinct_add_missing)
qed

lemma confirmImport_shape:
  "allShows (confirmImport st) = allShows st @
     filter (\<lambda>s. showKey s \<notin> set (map showKey (allShows st))) (pendingCsvShows st)"
  by (cases "pendingCsvShows st = []") (simp_all add: confirmImport_def Let_def)

lemma confirmImport_distinct:
  assumes "distinct (map naturalKey (allShows st))"
    and "distinct (map naturalKey (pendingCsvShows st))"
  shows "distinct (map naturalKey (allShows (confirmImport st)))"
  unfolding confirmImport_shape using assms by (rule distinct_add_missing)

lemma mergeUnofficial_shape:
  "mergeUnofficial official unofficial = official @
     filter (\<lambda>s. showKey s \<notin> set (map showKey official))
       (case unofficial of None \<Rightarrow> [] | Some us \<Rightarrow> us)"
  by (simp add: mergeUnofficial_def split: option.splits)

lemma loadAllShows_shape:
  "loadAllShows official unofficial userShows = official @
     filter (\<lambda>s. showKey s \<notin> set (map showKey official))
       (case unofficial of None \<Rightarrow> [] | Some us \<Rightarrow> us) @
     filter (\<lambda>s. showKey s \<notin> set (map showKey (mergeUnofficial official unofficial))) userShows"
  unfolding loadAllShows_def mergeUserShows_def
  by (subst mergeUnofficial_shape) simp

text \<open>
  C7, as the scripts implement it.  When the official list, the unofficial list, the
  stored user shows, the collection before an import and the parsed shows are each free
  of repeated natural keys, no two shows of the merged collection, and no two shows of
  the collection after a confirmed import, share the natural key
  (artist_name, venue, day, start_time).  Every merge keeps the collection it starts from
  and appends the incoming shows in their order, leaving out exactly those whose key
  string equals that of a show that was in the collection before this merge started; so
  an incoming show is dropped only when its key string matches such a show, and the
  incoming list is not compared with itself.
\<close>

theorem merged_shows_distinct_keys:
  "(distinct (map naturalKey official)
      \<and> (\<forall>us. unofficial = Some us \<longrightarrow> distinct (map naturalKey us))
      \<and> distinct (map naturalKey userShows)
      \<longrightarrow> distinct (map naturalKey (loadAllShows official unofficial userShows)))
   \<and> (distinct (map naturalKey (allShows st)) \<and> distinct (map naturalKey (pendingCsvShows st))
      \<longrightarrow> distinct (map naturalKey (allShows (confirmImport st))))
   \<and> loadAllShows official unofficial userShows = official @
        filter (\<lambda>s. showKey s \<notin> set (map showKey official))
          (case unofficial of None \<Rightarrow> [] | Some us \<Rightarrow> us) @
        filter (\<lambda>s. showKey s \<notin> set (map showKey (mergeUnofficial official unofficial))) userShows
   \<and> allShows (confirmImport st) = allShows st @
        filter (\<lambda>s. showKey s \<notin> set (map showKey (allShows st))) (pendingCsvShows st)
   \<and> (\<forall>us. unofficial = Some us \<longrightarrow>
        (\<forall>s\<in>set us. showKey s \<notin> set (map showKey official) \<longrightarrow>
           s \<in> set (loadAllShows official unofficial userShows)))
   \<and> (\<forall>s\<in>set userShows. showKey s \<notin> set (map showKey (mergeUnofficial official unofficial)) \<longrightarrow>
        s \<in> set (loadAllShows official unofficial userShows))
   \<and> (\<forall>s\<in>set (pendingCsvShows st). showKey s \<notin> set (map showKey (allShows st)) \<longrightarrow>
        s \<in> set (allShows (confirmImport st)))"
proof (intro conjI)
  show "distinct (map naturalKey official)
      \<and> (\<forall>us. unofficial = Some us \<longrightarrow> distinct (map naturalKey us))
      \<and> distinct (map naturalKey userShows)
      \<longrightarrow> distinct (map naturalKey (loadAllShows official unofficial userShows))"
    using loadAllShows_distinct by blast
  show "distinct (map naturalKey (allShows st)) \<and> distinct (map naturalKey (pendingCsvShows st))
      \<longrightarrow> distinct (map naturalKey (allShows (confirmImport st)))"
    using confirmImport_distinct by blast
  show "loadAllShows official unofficial userShows = official @
        filter (\<lambda>s. showKey s \<notin> set (map showKey official))
          (case unofficial of None \<Rightarrow> [] | Some us \<Rightarrow> us) @
        filter (\<lambda>s. showKey s \<notin> set (map showKey (mergeUnofficial official unofficial))) userShows"
    by (rule loadAllShows_shape)
  show "allShows (confirmImport st) = allShows st @
        filter (\<lambda>s. showKey s \<notin> set (map showKey (allShows st))) (pendingCsvShows st)"
    by (rule confirmImport_shape)
  show "\<forall>us. unofficial = Some us \<longrightarrow>
        (\<forall>s\<in>set us. showKey s \<notin> set (map showKey official) \<longrightarrow>
           s \<in> set (loadAllShows official unofficial userShows))"
    by (subst loadAllShows_shape) simp
  show "\<forall>s\<in>set userShows. showKey s \<notin> set (map showKey (mergeUnofficial official unofficial)) \<longrightarrow>
        s \<in> set (loadAllShows official unofficial userShows)"
    by (subst loadAllShows_shape) simp
  show "\<forall>s\<in>set (pendingCsvShows st). showKey s \<notin> set (map showKey (allShows st)) \<longrightarrow>
        s \<in> set (allShows (confirmImport st))"
    by (subst confirmImport_shape) simp
qed

theorem merged_shows_distinct_keys_witness:
  "distinct (map naturalKey [userShow ''AB'' ''C'' ''10:00''])
   \<and> distinct (map naturalKey [userShow ''AB'' ''C'' ''10:00'', userShow ''D'' ''E'' ''10:15''])
   \<and> distinct (map naturalKey [userShow ''D'' ''E'' ''10:15'', userShow ''A'' ''BC'' ''10:00''])
   \<and> distinct (map naturalKey (allShows exampleState))
   \<and> distinct (map naturalKey (pendingCsvShows exampleState))
   \<and> distinct (map naturalKey (loadAllShows [userShow ''AB'' ''C'' ''10:00'']
         (Some [userShow ''AB'' ''C'' ''10:00'', userShow ''D'' ''E'' ''10:15''])
         [userShow ''D'' ''E'' ''10:15'', userShow ''A'' ''BC'' ''10:00'']))
   \<and> distinct (map naturalKey (allShows (confirmImport exampleState)))
   \<and> showKey (userShow ''D'' ''E'' ''10:15'') \<notin> set (map showKey [userShow ''AB'' ''C'' ''10:00''])
   \<and> userShow ''D'' ''E'' ''10:15'' \<in> set (loadAllShows [userShow ''AB'' ''C'' ''10:00'']
         (Some [userShow ''AB'' ''C'' ''10:00'', userShow ''D'' ''E'' ''10:15''])
         [userShow ''D'' ''E'' ''10:15'', userShow ''A'' ''BC'' ''10:00''])
   \<and> showKey (userShow ''D'' ''E'' ''10:15'') \<notin> set (map showKey (allShows exampleState))
   \<and> userShow ''D'' ''E'' ''10:15'' \<in> set (allShows (confirmImport exampleState))
   \<and> loadAllShows [userShow ''AB'' ''C'' ''10:00'']
         (Some [userShow ''AB'' ''C'' ''10:00'', userShow ''D'' ''E'' ''10:15''])
         [userShow ''D'' ''E'' ''10:15'', userShow ''A'' ''BC'' ''10:00'']
       = [userShow ''AB'' ''C'' ''10:00'', userShow ''D'' ''E'' ''10:15'', userShow ''A'' ''BC'' ''10:00'']
   \<and> allShows (confirmImport exampleState) = [userShow ''AB'' ''C'' ''10:00'', userShow ''D'' ''E'' ''10:15'']"
proof -
  let ?official = "[userShow ''AB'' ''C'' ''10:00'']"
  let ?us = "[userShow ''AB'' ''C'' ''10:00'', userShow ''D'' ''E'' ''10:15'']"
  let ?user = "[userShow ''D'' ''E'' ''10:15'', userShow ''A'' ''BC'' ''10:00'']"
  have h1: "distinct (map naturalKey ?official)" by simp
  have h2: "\<forall>us. Some ?us = Some us \<longrightarrow> distinct (map naturalKey us)"
    by (auto simp: naturalKey_def userShow_def)
  have h2': "distinct (map naturalKey ?us)" using h2 by simp
  have h3: "distinct (map naturalKey ?user)" by (simp add: naturalKey_def userShow_def)
  have h4: "distinct (map naturalKey (allShows exampleState))" by (simp add: exampleState_def)
  have h5: "distinct (map naturalKey (pendingCsvShows exampleState))"
    by (simp add: exampleState_def naturalKey_def userShow_def)
  have k1: "showKey (userShow ''D'' ''E'' ''10:15'') \<notin> set (map showKey ?official)" by code_simp
  have k2: "showKey (userShow ''D'' ''E'' ''10:15'') \<notin> set (map showKey (allShows exampleState))"
    by code_simp
  have m1: "userShow ''D'' ''E'' ''10:15'' \<in> set ?us" by simp
  have m2: "userShow ''D'' ''E'' ''10:15'' \<in> set (pendingCsvShows exampleState)"
    by (simp add: exampleState_def)
  have e1: "loadAllShows ?official (Some ?us) ?user
       = [userShow ''AB'' ''C'' ''10:00'', userShow ''D'' ''E'' ''10:15'', userShow ''A'' ''BC'' ''10:00'']"
    by code_simp
  have e2: "allShows (confirmImport exampleState) = [userShow ''AB'' ''C'' ''10:00'', userShow ''D'' ''E'' ''10:15'']"
    by code_simp
  note t = merged_shows_distinct_keys [where official = ?official and unofficial = "Some ?us"
      and userShows = ?user and st = exampleState]
  have d1: "distinct (map naturalKey (loadAllShows ?official (Some ?us) ?user))"
    using t h1 h2 h3 by blast
  have d2: "distinct (map naturalKey (allShows (confirmImport exampleState)))"
    using t h4 h5 by blast
  have i1: "userShow ''D'' ''E'' ''10:15'' \<in> set (loadAllShows ?official (Some ?us) ?user)"
    using t k1 m1 by blast
  have i2: "userShow ''D'' ''E'' ''10:15'' \<in> set (allShows (confirmImport exampleState))"
    using t k2 m2 by blast
  show ?thesis
    using h1 h2' h3 h4 h5 d1 d2 k1 k2 i1 i2 e1 e2 by blast
qed

text \<open>
  C7 as stated fails: an unofficial list that holds the same show twice is merged with
  both copies, so the merged collection has two shows with one natural key.
\<close>

theorem merged_shows_duplicate_counterexample:
  "\<not> distinct (map naturalKey (loadAllShows []
       (Some [userShow ''AB'' ''C'' ''10:00'', userShow ''AB'' ''C'' ''10:00'']) []))"
  by (simp add: loadAllShows_def mergeUserShows_def mergeUnofficial_def)

text \<open>
  C10: \<open>deleteShow\<close> removes from the in-memory collection and from the stored user shows
  exactly the entries whose natural key equals that of the deleted show; the other
  entries stay, in their order, and the ratings stay as they are.
\<close>

theorem deleteShow_frame:
  "allShows (deleteShow sh st) = filter (\<lambda>s. naturalKey s \<noteq> naturalKey sh) (allShows st)
   \<and> storedUserShows (deleteShow sh st)
       = filter (\<lambda>s. naturalKey s \<noteq> naturalKey sh) (storedUserShows st)
   \<and> ratings (deleteShow sh st) = ratings st
   \<and> artistEntityIdMap (deleteShow sh st) = artistEntityIdMap st
   \<and> pendingCsvShows (deleteShow sh st) = pendingCsvShows st"
  by (simp add: deleteShow_def sameShow_naturalKey)

theorem deleteShow_frame_witness:
  "allShows (deleteShow (userShow ''AB'' ''C'' ''10:00'') (confirmImport exampleState))
      = [userShow ''D'' ''E'' ''10:15'']
   \<and> storedUserShows (deleteShow (userShow ''AB'' ''C'' ''10:00'') (confirmImport exampleState))
      = [userShow ''D'' ''E'' ''10:15'']
   \<and> ratings (deleteShow (userShow ''AB'' ''C'' ''10:00'') (confirmImport exampleState)) ''name_ab'' = Some 3"
proof -
  have a: "filter (\<lambda>s. naturalKey s \<noteq> naturalKey (userShow ''AB'' ''C'' ''10:00''))
      (allShows (confirmImport exampleState)) = [userShow ''D'' ''E'' ''10:15'']" by code_simp
  have b: "filter (\<lambda>s. naturalKey s \<noteq> naturalKey (userShow ''AB'' ''C'' ''10:00''))
      (storedUserShows (confirmImport exampleState)) = [userShow ''D'' ''E'' ''10:15'']" by code_simp
  have c: "ratings (confirmImport exampleState) ''name_ab'' = Some 3" by code_simp
  show ?thesis
    using a b c deleteShow_frame [of "userShow ''AB'' ''C'' ''10:00''" "confirmImport exampleState"]
    by simp
qed

text \<open>
  C8 at a day of three shows: \<open>AB\<close> at \<open>C\<close> and \<open>D\<close> at \<open>E\<close> are rated and overlap; the
  unrated show \<open>A\<close> at \<open>BC\<close> at 10:00 has the same concatenated string as the first and
  is drawn with the conflict mark although its rating is 0.
\<close>

theorem unrated_show_flagged:
  "userShow ''A'' ''BC'' ''10:00'' \<in> set (flaggedShows [''name_ab'' \<mapsto> 3, ''name_d'' \<mapsto> 3] Map.empty conflictDay)
   \<and> getRating [''name_ab'' \<mapsto> 3, ''name_d'' \<mapsto> 3] Map.empty (userShow ''A'' ''BC'' ''10:00'') = 0"
  by code_simp

section \<open>The importer: results, sources and skipped rows\<close>

lemma parseRow_returns: "\<exists>st'. parseRow clock dayStr venues st row = Inr st'"
  by (auto simp: parseRow_def Let_def truthyStr_def split: option.splits prod.splits)

lemma parseRows_returns: "\<exists>st'. parseRows clock dayStr venues st rows = Inr st'"
proof (induction rows arbitrary: st)
  case Nil
  then show ?case by simp
next
  case (Cons row rows)
  obtain st1 where "parseRow clock dayStr venues st row = Inr st1"
    using parseRow_returns by blast
  then show ?case using Cons.IH [of st1] by simp
qed

lemma parseScheduleCsv_returns: "\<exists>evs. parseScheduleCsv clock csvText dayStr = Inr evs"
proof (cases "csvRows csvText")
  case Nil
  then show ?thesis by (simp add: parseScheduleCsv_def)
next
  case (Cons header body)
  let ?venues = "map (\<lambda>v. trim (filter (\<lambda>c. c \<noteq> CHR ''<'' \<and> c \<noteq> CHR ''>'') v)) (tl header)"
  obtain st where "parseRows clock dayStr ?venues
      \<lparr>currentBaseTime = None, slotOffset = 0, parsedShows = []\<rparr> body = Inr st"
    using parseRows_returns by blast
  then show ?thesis using Cons by (simp add: parseScheduleCsv_def)
qed

lemma isNavLabel_not_hour: "isNavLabel l \<Longrightarrow> hourMatch l = None \<and> l \<noteq> []"
proof -
  assume n: "isNavLabel l"
  then obtain c cs where l: "l = c # cs" by (cases l) (auto simp: isNavLabel_def toLowerCase_def)
  have "\<not> isDigit c"
    using n l by (auto simp: isNavLabel_def isDigit_def toLowerCase_def toLowerChar_def Let_def
        split: if_splits)
  then show ?thesis using l by (simp add: hourMatch_def)
qed

lemma parseRow_skips:
  assumes "isNavLabel (rowLabel row) \<or> list_all (\<lambda>c. c = []) row"
  shows "parseRow clock dayStr venues st row = Inr st"
proof (cases "list_all (\<lambda>c. c = []) row")
  case True
  then show ?thesis by (simp add: parseRow_def)
next
  case False
  then have "isNavLabel (rowLabel row)" using assms by simp
  from isNavLabel_not_hour [OF this] this False show ?thesis
    by (simp add: parseRow_def)
qed

lemma parseRow_no_base:
  assumes "currentBaseTime st = None" "hourMatch (rowLabel row) = None"
  shows "\<exists>off. parseRow clock dayStr venues st row = Inr (st\<lparr>slotOffset := off\<rparr>)"
proof -
  have id: "st = st\<lparr>slotOffset := slotOffset st\<rparr>" by simp
  show ?thesis
  proof (cases "list_all (\<lambda>c. c = []) row")
    case True
    then have "parseRow clock dayStr venues st row = Inr st" by (simp add: parseRow_def)
    then show ?thesis using id by metis
  next
    case False
    show ?thesis
    proof (cases "rowLabel row = []")
      case True
      then have "parseRow clock dayStr venues st row = Inr (st\<lparr>slotOffset := 1\<rparr>)"
        using False assms by (simp add: parseRow_def truthyStr_def)
      then show ?thesis by blast
    next
      case nonempty: False
      then have "parseRow clock dayStr venues st row = Inr st"
        using False assms by (simp add: parseRow_def truthyStr_def)
      then show ?thesis using id by metis
    qed
  qed
qed

lemma parseRows_no_base:
  assumes "currentBaseTime st = None" "\<forall>row\<in>set rows. hourMatch (rowLabel row) = None"
  shows "\<exists>off. parseRows clock dayStr venues st rows = Inr (st\<lparr>slotOffset := off\<rparr>)"
  using assms
proof (induction rows arbitrary: st)
  case Nil
  have "st = st\<lparr>slotOffset := slotOffset st\<rparr>" by simp
  then show ?case by (metis parseRows.simps(1))
next
  case (Cons row rows)
  have "\<exists>off. parseRow clock dayStr venues st row = Inr (st\<lparr>slotOffset := off\<rparr>)"
    using Cons.prems by (intro parseRow_no_base) simp_all
  then obtain off where o: "parseRow clock dayStr venues st row = Inr (st\<lparr>slotOffset := off\<rparr>)"
    by blast
  have "currentBaseTime (st\<lparr>slotOffset := off\<rparr>) = None" using Cons.prems by simp
  from Cons.IH [OF this] Cons.prems(2)
  obtain off' where "parseRows clock dayStr venues (st\<lparr>slotOffset := off\<rparr>) rows
      = Inr (st\<lparr>slotOffset := off, slotOffset := off'\<rparr>)" by auto
  then show ?case using o by auto
qed

lemma parseCell_source: "userSourced acc \<Longrightarrow> userSourced (parseCell clock dayStr venues slot acc cc)"
  by (auto simp: parseCell_def userSourced_def Let_def split: option.splits prod.splits)

lemma foldl_parseCell_source:
  "userSourced acc \<Longrightarrow> userSourced (foldl (parseCell clock dayStr venues slot) acc ccs)"
  by (induction ccs arbitrary: acc) (simp_all add: parseCell_source)

lemma parseRow_source:
  "userSourced (parsedShows st) \<Longrightarrow> parseRow clock dayStr venues st row = Inr st' \<Longrightarrow>
     userSourced (parsedShows st')"
  by (auto simp: parseRow_def Let_def foldl_parseCell_source split: option.splits prod.splits if_splits)

lemma parseRows_source:
  "userSourced (parsedShows st) \<Longrightarrow> parseRows clock dayStr venues st rows = Inr st' \<Longrightarrow>
     userSourced (parsedShows st')"
proof (induction rows arbitrary: st)
  case Nil
  then show ?case by simp
next
  case (Cons row rows)
  then show ?case by (auto split: sum.splits dest: parseRow_source)
qed

lemma parseScheduleCsv_source: "userSourced (emitted (parseScheduleCsv clock csvText dayStr))"
proof (cases "csvRows csvText")
  case Nil
  then show ?thesis by (simp add: parseScheduleCsv_def emitted_def userSourced_def)
next
  case (Cons header body)
  let ?venues = "map (\<lambda>v. trim (filter (\<lambda>c. c \<noteq> CHR ''<'' \<and> c \<noteq> CHR ''>'') v)) (tl header)"
  let ?st0 = "\<lparr>currentBaseTime = None, slotOffset = 0, parsedShows = []\<rparr>"
  have u0: "userSourced (parsedShows ?st0)" by (simp add: userSourced_def)
  show ?thesis
  proof (cases "parseRows clock dayStr ?venues ?st0 body")
    case (Inl e)
    then show ?thesis using Cons by (simp add: parseScheduleCsv_def emitted_def userSourced_def)
  next
    case (Inr st)
    from parseRows_source [OF u0 Inr] show ?thesis
      using Cons Inr by (simp add: parseScheduleCsv_def emitted_def)
  qed
qed

text \<open>
  C1 on the code: for the grid with header \<open>Time,Venue A,Venue B\<close>, the row
  \<open>9:00 AM,Band X,Band Y\<close> and the row \<open>,Band Z,\<close>, and any target day, the importer
  returns one show only, Band Z at 09:30 at Venue A.  The hour-marker row sets the base
  time and is left before its cells are read, so Band X and Band Y are not emitted.
\<close>

theorem parseScheduleCsv_example:
  "parseScheduleCsv clock exampleCsv dayStr =
     Inr [\<lparr>show_id = ''csv_'' @ toString (clock 0) @ ''_0'', artist_name = ''Band Z'',
           venue = ''Venue A'', day = dayStr, start_time = Some ''09:30'', end_time = None,
           no_set_time = False, source = ''user'', showcase = [], show_notes = [],
           entity_id = None\<rparr>]"
  by code_simp

text \<open>
  C6, as the code has it: every show the importer emits, for every text and target day,
  has the source \<open>user\<close>.
\<close>

theorem emitted_source_user:
  "\<forall>e\<in>set (emitted (parseScheduleCsv clock csvText dayStr)). source e = ''user''"
  using parseScheduleCsv_source [of clock csvText dayStr]
  by (simp add: userSourced_def list_all_iff)

theorem emitted_source_user_witness:
  "emitted (parseScheduleCsv zeroClock exampleCsv ''2026-03-12'') \<noteq> []
   \<and> source (hd (emitted (parseScheduleCsv zeroClock exampleCsv ''2026-03-12''))) = ''user''"
proof -
  have n: "emitted (parseScheduleCsv zeroClock exampleCsv ''2026-03-12'') \<noteq> []" by code_simp
  then have "hd (emitted (parseScheduleCsv zeroClock exampleCsv ''2026-03-12''))
      \<in> set (emitted (parseScheduleCsv zeroClock exampleCsv ''2026-03-12''))" by simp
  then show ?thesis
    using n emitted_source_user [of zeroClock exampleCsv "''2026-03-12''"] by blast
qed

text \<open>
  C6 as stated fails: the one show emitted for the example grid has the source
  \<open>user\<close>, not \<open>csv-import\<close>.
\<close>

theorem emitted_source_counterexample:
  "length (emitted (parseScheduleCsv zeroClock exampleCsv ''2026-03-12'')) = 1
   \<and> source (emitted (parseScheduleCsv zeroClock exampleCsv ''2026-03-12'') ! 0) = ''user''
   \<and> source (emitted (parseScheduleCsv zeroClock exampleCsv ''2026-03-12'') ! 0) \<noteq> ''csv-import''"
  by code_simp

text \<open>
  C9: for every text and target day \<open>parseScheduleCsv\<close> returns a list of shows and raises
  nothing.  A row whose label is a day label or navigation hint, or whose fields are all
  empty, leaves the parser's variables as they are; and while no base time is set, rows
  that are not hour markers add no show and set no base time.
\<close>

theorem parseScheduleCsv_never_throws:
  "(\<exists>evs. parseScheduleCsv clock csvText dayStr = Inr evs)
   \<and> (isNavLabel (rowLabel row) \<or> list_all (\<lambda>c. c = []) row \<longrightarrow>
        parseRow clock dayStr venues st row = Inr st)
   \<and> (currentBaseTime st = None \<and> (\<forall>r\<in>set rows. hourMatch (rowLabel r) = None) \<longrightarrow>
        (\<exists>off. parseRows clock dayStr venues st rows = Inr (st\<lparr>slotOffset := off\<rparr>)))"
  using parseScheduleCsv_returns [of clock csvText dayStr]
    parseRow_skips [of row clock dayStr venues st]
    parseRows_no_base [of st rows clock dayStr venues]
  by blast

theorem parseScheduleCsv_never_throws_witness:
  "(\<exists>evs. parseScheduleCsv zeroClock exampleCsv ''2026-03-12'' = Inr evs)
   \<and> parseRow zeroClock ''2026-03-12'' [''Venue A'']
        \<lparr>currentBaseTime = None, slotOffset = 0, parsedShows = []\<rparr> [''Day 2'', ''Band Q'']
      = Inr \<lparr>currentBaseTime = None, slotOffset = 0, parsedShows = []\<rparr>
   \<and> (\<exists>off. parseRows zeroClock ''2026-03-12'' [''Venue A'']
        \<lparr>currentBaseTime = None, slotOffset = 0, parsedShows = []\<rparr>
        [[[], ''Band Q''], [''Stage'', ''Band R'']]
      = Inr (\<lparr>currentBaseTime = None, slotOffset = 0, parsedShows = []\<rparr>\<lparr>slotOffset := off\<rparr>))"
proof -
  have h1: "isNavLabel (rowLabel [''Day 2'', ''Band Q''])" by code_simp
  have h2: "currentBaseTime \<lparr>currentBaseTime = None, slotOffset = 0, parsedShows = []\<rparr> = None"
    by simp
  have h3: "\<forall>r\<in>set [[[], ''Band Q''], [''Stage'', ''Band R'']]. hourMatch (rowLabel r) = None"
    by code_simp
  show ?thesis
    using h1 h2 h3 parseScheduleCsv_never_throws [where clock = zeroClock
        and csvText = exampleCsv and dayStr = "''2026-03-12''"
        and row = "[''Day 2'', ''Band Q'']" and venues = "[''Venue A'']"
        and st = "\<lparr>currentBaseTime = None, slotOffset = 0, parsedShows = []\<rparr>"
        and rows = "[[[], ''Band Q''], [''Stage'', ''Band R'']]"]
    by blast
qed

end
